theory Spec2Isabelle
  imports Main "HOL-Library.AList" "HOL-Library.List_Lexorder" "HOL-Library.Char_ord"
begin

section \<open>Python values\<close>

text \<open>
  Python strings are modelled as \<open>string\<close>: the UTF-8 bytes of the text. Concatenation,
  \<open>join\<close>, equality and the search for \<open>/\<close> and the newline act on the bytes as they act
  on the code points, and the order of \<open>HOL-Library.List_Lexorder\<close> with
  \<open>HOL-Library.Char_ord\<close> (lexicographic, by byte value) is the order in which Python
  compares two strings (lexicographic, by code point), since UTF-8 keeps that order.
  Python's integers are unbounded: \<open>int\<close>.
\<close>

datatype exn =
  KeyError string
| ValueError string
| TypeError string
| ReError string

definition newline :: char where
  "newline = CHR 0x0A"

fun digit_char :: "nat \<Rightarrow> char" where
  "digit_char n = char_of (48 + n)"

fun str_nat :: "nat \<Rightarrow> string" where
  "str_nat n = (if n < 10 then [digit_char n] else str_nat (n div 10) @ [digit_char (n mod 10)])"

text \<open>\<open>str(i)\<close>, which is also what \<open>%d\<close> and \<open>%s\<close> print for an integer.\<close>

definition str_int :: "int \<Rightarrow> string" where
  "str_int i = (if i < 0 then CHR ''-'' # str_nat (nat (- i)) else str_nat (nat i))"

text \<open>\<open>sep.join(xs)\<close>\<close>

fun join :: "string \<Rightarrow> string list \<Rightarrow> string" where
  "join sep [] = []"
| "join sep [x] = x"
| "join sep (x # y # ys) = x @ sep @ join sep (y # ys)"

section \<open>Frames\<close>

text \<open>
  \<open>FrameInfo = collections.namedtuple('FrameInfo', ['fname', 'short_fname', 'line', 'fun'])\<close>.
  The field \<open>fun\<close> is named \<open>func\<close> here.
\<close>

record frame_info =
  fname :: string
  short_fname :: string
  line :: int
  func :: string

text \<open>
  A frame object is modelled by what \<open>traceback.extract_stack(frame)\<close> returns for it:
  the entries \<open>(filename, lineno, name, text)\<close> of its call stack, the oldest call first
  and the frame itself last.
\<close>

type_synonym frame_summary = "string \<times> int \<times> string \<times> string option"

type_synonym frame = "frame_summary list"

text \<open>
  \<open>re.sub(r'.*/', '', fn)\<close>. The dot matches every character but the newline and the
  star is greedy, so in each line of \<open>fn\<close> the text up to and including the last \<open>/\<close> of
  that line is deleted; the newlines and the rest of each line stay. \<open>cur\<close> holds the
  part of the current line that is kept so far.
\<close>

fun re_sub_dirs :: "string \<Rightarrow> string \<Rightarrow> string" where
  "re_sub_dirs cur [] = cur"
| "re_sub_dirs cur (c # cs) =
     (if c = newline then cur @ [c] @ re_sub_dirs [] cs
      else if c = CHR ''/'' then re_sub_dirs [] cs
      else re_sub_dirs (cur @ [c]) cs)"

definition extract_frame_info :: "frame \<Rightarrow> frame_info list" where
  "extract_frame_info frame =
     map (\<lambda>(fn, ln, fun_name, text).
            \<lparr>fname = fn, short_fname = re_sub_dirs [] fn, line = ln, func = fun_name\<rparr>)
         (drop 1 frame)"

section \<open>The stack encoder\<close>

text \<open>\<open>_default_format = '%(fun)s@%(short_fname)s:%(line)s'\<close>, applied to the fields.\<close>

definition default_format_entry :: "frame_info \<Rightarrow> exn + string" where
  "default_format_entry fi = Inr (func fi @ ''@'' @ short_fname fi @ '':'' @ str_int (line fi))"

text \<open>
  The loop of the collapsing branch: \<open>last'\<close> (the source's \<open>last\<close>) is \<open>None\<close>
  before the first frame, \<open>ret\<close> is the list built so far. A formatting function that
  raises ends the loop.
\<close>

fun collapse_loop ::
  "(frame_info \<Rightarrow> exn + string) \<Rightarrow> string option \<Rightarrow> string list \<Rightarrow> frame_info list
     \<Rightarrow> exn + string list" where
  "collapse_loop fmt last' ret [] = Inr ret"
| "collapse_loop fmt last' ret (fi # fis) =
     (if last' \<noteq> Some (func fi)
      then (case fmt fi of
              Inl e \<Rightarrow> Inl e
            | Inr s \<Rightarrow> collapse_loop fmt (Some (func fi)) (ret @ [s]) fis)
      else collapse_loop fmt (Some (func fi)) ret fis)"

text \<open>The generator \<open>format_entry(fi) for fi in ...\<close>, consumed in order by \<open>join\<close>.\<close>

fun format_each :: "(frame_info \<Rightarrow> exn + string) \<Rightarrow> frame_info list \<Rightarrow> exn + string list" where
  "format_each fmt [] = Inr []"
| "format_each fmt (fi # fis) =
     (case fmt fi of
        Inl e \<Rightarrow> Inl e
      | Inr s \<Rightarrow> (case format_each fmt fis of Inl e \<Rightarrow> Inl e | Inr ss \<Rightarrow> Inr (s # ss)))"

text \<open>The body of \<open>create_flamegraph_entry\<close> on the frames that \<open>extract_frame_info\<close> yields.\<close>

definition encode_frames ::
  "frame_info list \<Rightarrow> (frame_info \<Rightarrow> exn + string) \<Rightarrow> bool \<Rightarrow> exn + string" where
  "encode_frames fis fmt collapse =
     (if collapse
      then (case collapse_loop fmt None [] fis of
              Inl e \<Rightarrow> Inl e
            | Inr ret \<Rightarrow> Inr (join '';'' ret))
      else (case format_each fmt fis of
              Inl e \<Rightarrow> Inl e
            | Inr ss \<Rightarrow> Inr (join '';'' ss)))"

definition create_flamegraph_entry ::
  "frame \<Rightarrow> (frame_info \<Rightarrow> exn + string) \<Rightarrow> bool \<Rightarrow> exn + string" where
  "create_flamegraph_entry frame fmt collapse =
     encode_frames (extract_frame_info frame) fmt collapse"

section \<open>The output file\<close>

text \<open>
  The file object \<open>fd\<close> is modelled by the calls made on it, in order. A write to a closed
  file raises \<open>ValueError\<close>; closing a closed file is allowed.
\<close>

datatype fd_op = Write string | Close

type_synonym fd = "fd_op list"

definition fd_write :: "fd \<Rightarrow> string \<Rightarrow> exn + fd" where
  "fd_write f s =
     (if Close \<in> set f then Inl (ValueError ''I/O operation on closed file'')
      else Inr (f @ [Write s]))"

definition fd_close :: "fd \<Rightarrow> fd" where
  "fd_close f = f @ [Close]"

section \<open>The profiler\<close>

text \<open>
  \<open>_stats\<close> is a \<open>defaultdict(int)\<close>: a dictionary, which keeps its keys in the order of
  their first insertion, modelled as an association list. A compiled pattern is modelled
  by its \<open>search\<close> method (whether it finds a match). Every method that takes \<open>_lock\<close>
  releases it before it returns, also when it raises, and the model runs one call at a
  time, so the lock is always free when a call starts and is not a field.
\<close>

type_synonym stats = "(string \<times> int) list"

record 't profiler =
  fd :: fd
  written :: bool
  interval :: 't
  format_entry :: "frame_info \<Rightarrow> exn + string"
  collapse_recursion :: bool
  filter_re :: "(string \<Rightarrow> bool) option"
  stats :: stats

text \<open>\<open>Profiler.__init__\<close>; \<open>re_compile\<close> is the library's \<open>re.compile\<close>.\<close>

definition Profiler_init ::
  "(string \<Rightarrow> exn + (string \<Rightarrow> bool)) \<Rightarrow> fd \<Rightarrow> 't \<Rightarrow> string option
     \<Rightarrow> (frame_info \<Rightarrow> exn + string) \<Rightarrow> bool \<Rightarrow> exn + 't profiler" where
  "Profiler_init re_compile fd0 interval0 filter0 fmt collapse =
     (case filter0 of
        Some pat \<Rightarrow>
          (case re_compile pat of
             Inl e \<Rightarrow> Inl e
           | Inr r \<Rightarrow>
               Inr \<lparr>fd = fd0, written = False, interval = interval0, format_entry = fmt,
                    collapse_recursion = collapse, filter_re = Some r, stats = []\<rparr>)
      | None \<Rightarrow>
          Inr \<lparr>fd = fd0, written = False, interval = interval0, format_entry = fmt,
               collapse_recursion = collapse, filter_re = None, stats = []\<rparr>)"

text \<open>\<open>self._stats[key]\<close>: the stored count, \<open>int()\<close> for a key that is not there.\<close>

definition stats_get :: "stats \<Rightarrow> string \<Rightarrow> int" where
  "stats_get st key = (case map_of st key of None \<Rightarrow> 0 | Some v \<Rightarrow> v)"

text \<open>\<open>self._stats[entry] += 1\<close>\<close>

definition stats_incr :: "string \<Rightarrow> stats \<Rightarrow> stats" where
  "stats_incr entry st = AList.update entry (stats_get st entry + 1) st"

definition accepts :: "(string \<Rightarrow> bool) option \<Rightarrow> string \<Rightarrow> bool" where
  "accepts flt entry = (case flt of None \<Rightarrow> True | Some r \<Rightarrow> r entry)"

text \<open>
  A method returns the profiler after the call and the exception it raised, if any.
  \<open>on_itimer\<close> does not use its argument \<open>signum\<close>, which the model leaves out. The
  exceptions of the model are those of the formatting function. The handler runs on the
  stack of the interrupted program, where \<open>traceback.extract_stack\<close> and the interpreter
  can raise as well (a \<open>RecursionError\<close> near the recursion limit); these are not
  modelled, they would leave the handler in the same way, and no theorem says that
  \<open>on_itimer\<close> raises nothing.
\<close>

definition on_itimer :: "'t profiler \<Rightarrow> frame \<Rightarrow> 't profiler \<times> exn option" where
  "on_itimer self frame =
     (case create_flamegraph_entry frame (format_entry self) (collapse_recursion self) of
        Inl e \<Rightarrow> (self, Some e)
      | Inr entry \<Rightarrow>
          (if accepts (filter_re self) entry
           then (self\<lparr>stats := stats_incr entry (stats self)\<rparr>, None)
           else (self, None)))"

text \<open>\<open>'%s %d\n' % (key, count)\<close>\<close>

definition report_line :: "string \<Rightarrow> int \<Rightarrow> string" where
  "report_line key count = key @ '' '' @ str_int count @ [newline]"

fun write_loop :: "fd \<Rightarrow> stats \<Rightarrow> string list \<Rightarrow> fd \<times> exn option" where
  "write_loop f st [] = (f, None)"
| "write_loop f st (key # keys) =
     (case fd_write f (report_line key (stats_get st key)) of
        Inl e \<Rightarrow> (f, Some e)
      | Inr f' \<Rightarrow> write_loop f' st keys)"

definition write_results :: "'t profiler \<Rightarrow> 't profiler \<times> exn option" where
  "write_results self =
     (if written self then (self, None)
      else (case write_loop (fd self) (stats self) (sort (map fst (stats self))) of
              (f, Some e) \<Rightarrow> (self\<lparr>written := True, fd := f\<rparr>, Some e)
            | (f, None) \<Rightarrow> (self\<lparr>written := True, fd := fd_close f\<rparr>, None)))"

definition num_frames :: "'t profiler \<Rightarrow> bool \<Rightarrow> int" where
  "num_frames self unique =
     (if unique then int (length (stats self)) else sum_list (map snd (stats self)))"

text \<open>
  \<open>stop\<close> also disarms the profiling timer of the process, which is not part of the
  profiler object: a session is the timer together with the profiler.
\<close>

record 't session =
  itimer_armed :: bool
  prof :: "'t profiler"

definition stop :: "'t session \<Rightarrow> 't session \<times> exn option" where
  "stop s =
     (case write_results (prof s) of
        (p, r) \<Rightarrow> (\<lparr>itimer_armed = False, prof = p\<rparr>, r))"

text \<open>
  A lifetime of the profiler is a sequence of calls of its methods; a call that raises
  leaves the profiler as the method left it, and the next call goes on from there.
\<close>

datatype call = Tick frame | Stop | WriteResults

fun do_call :: "'t session \<Rightarrow> call \<Rightarrow> 't session \<times> exn option" where
  "do_call s (Tick frame) = (case on_itimer (prof s) frame of (p, r) \<Rightarrow> (s\<lparr>prof := p\<rparr>, r))"
| "do_call s Stop = stop s"
| "do_call s WriteResults = (case write_results (prof s) of (p, r) \<Rightarrow> (s\<lparr>prof := p\<rparr>, r))"

fun run :: "'t session \<Rightarrow> call list \<Rightarrow> 't session" where
  "run s [] = s"
| "run s (c # cs) = run (fst (do_call s c)) cs"

section \<open>The pattern library, for patterns without metacharacters\<close>

text \<open>
  For a pattern made of ordinary characters only, \<open>re.compile(pat).search(s)\<close> finds a
  match exactly when \<open>pat\<close> occurs in \<open>s\<close> as a contiguous substring.
\<close>

fun starts_with :: "string \<Rightarrow> string \<Rightarrow> bool" where
  "starts_with [] s = True"
| "starts_with (p # ps) [] = False"
| "starts_with (p # ps) (c # cs) = (p = c \<and> starts_with ps cs)"

fun literal_search :: "string \<Rightarrow> string \<Rightarrow> bool" where
  "literal_search pat [] = starts_with pat []"
| "literal_search pat (c # cs) = (starts_with pat (c # cs) \<or> literal_search pat cs)"

definition re_compile_literal :: "string \<Rightarrow> exn + (string \<Rightarrow> bool)" where
  "re_compile_literal pat = Inr (literal_search pat)"

section \<open>The frames that the collapsing encoder emits, in the words of the specification\<close>

text \<open>
  A frame is emitted when it is the first one, or when the routine name of the frame
  immediately before it differs from its own.
\<close>

definition emitted_frames :: "frame_info list \<Rightarrow> frame_info list" where
  "emitted_frames fis =
     map (\<lambda>i. fis ! i)
       (filter (\<lambda>i. i = 0 \<or> func (fis ! (i - 1)) \<noteq> func (fis ! i)) [0..<length fis])"

text \<open>The same frames, computed along the list as the loop does.\<close>

fun keep_changes :: "string option \<Rightarrow> frame_info list \<Rightarrow> frame_info list" where
  "keep_changes l [] = []"
| "keep_changes l (fi # fis) =
     (if l \<noteq> Some (func fi) then fi # keep_changes (Some (func fi)) fis
      else keep_changes (Some (func fi)) fis)"

section \<open>Runs of the sampling handler and the report\<close>

text \<open>The handler called once for each frame of a list, in order.\<close>

fun ticks :: "'t profiler \<Rightarrow> frame list \<Rightarrow> 't profiler" where
  "ticks self [] = self"
| "ticks self (frame # frames) = ticks (fst (on_itimer self frame)) frames"

text \<open>
  The entries that a profiler counts for a list of frames: those that are encoded without
  an exception and pass the filter.
\<close>

definition accepted_entry :: "'t profiler \<Rightarrow> frame \<Rightarrow> string option" where
  "accepted_entry self frame =
     (case create_flamegraph_entry frame (format_entry self) (collapse_recursion self) of
        Inl e \<Rightarrow> None
      | Inr entry \<Rightarrow> if accepts (filter_re self) entry then Some entry else None)"

definition accepted_entries :: "'t profiler \<Rightarrow> frame list \<Rightarrow> string list" where
  "accepted_entries self frames = List.map_filter (accepted_entry self) frames"

text \<open>The lines of the report for the contents of \<open>_stats\<close>, in the order they are written.\<close>

definition report :: "stats \<Rightarrow> string list" where
  "report st = map (\<lambda>key. report_line key (stats_get st key)) (sort (map fst st))"

text \<open>The value of a string of decimal digits.\<close>

definition decimal_value :: "string \<Rightarrow> nat" where
  "decimal_value s = foldl (\<lambda>a c. 10 * a + (of_char c - 48)) 0 s"

section \<open>Example inputs\<close>

text \<open>
  A profiler as \<open>start_profiler(fd)\<close> makes it (no filter, the default format, no
  collapsing), with a new output file, and two tracebacks of a script \<open>/p/run.py\<close> that
  calls \<open>a\<close>, which calls \<open>b\<close>.
\<close>

definition example_profiler :: "unit profiler" where
  "example_profiler =
     \<lparr>fd = [], written = False, interval = (), format_entry = default_format_entry,
      collapse_recursion = False, filter_re = None, stats = []\<rparr>"

definition frame_a :: frame where
  "frame_a = [(''/p/run.py'', 3, ''<module>'', None), (''/p/f.py'', 1, ''a'', None)]"

definition frame_ab :: frame where
  "frame_ab =
     [(''/p/run.py'', 3, ''<module>'', None), (''/p/f.py'', 1, ''a'', None),
      (''/p/f.py'', 7, ''b'', None)]"

text \<open>A formatting function that raises on every frame, as the template \<open>%(fn)s\<close> does.\<close>

definition raising_format :: "frame_info \<Rightarrow> exn + string" where
  "raising_format fi = Inl (KeyError ''fn'')"

definition foo_profiler :: "unit profiler" where
  "foo_profiler = example_profiler\<lparr>filter_re := Some (literal_search ''foo'')\<rparr>"

definition raising_profiler :: "unit profiler" where
  "raising_profiler = example_profiler\<lparr>format_entry := raising_format\<rparr>"

text \<open>
  Two tracebacks with the frames \<open>mod\<close>, \<open>foo\<close>, \<open>foo\<close> of a file \<open>f.py\<close>; they differ in
  the outermost entry and in the source text.
\<close>

definition frame_mod_foo :: frame where
  "frame_mod_foo =
     [(''/lib/flamegraph.py'', 145, ''<module>'', None), (''/p/f.py'', 1, ''mod'', None),
      (''/p/f.py'', 5, ''foo'', None), (''/p/f.py'', 5, ''foo'', None)]"

definition frame_mod_foo' :: frame where
  "frame_mod_foo' =
     [(''/p/run.py'', 3, ''<module>'', Some ''main()''),
      (''/p/f.py'', 1, ''mod'', Some ''foo()''), (''/p/f.py'', 5, ''foo'', None),
      (''/p/f.py'', 5, ''foo'', None)]"

text \<open>
  The traceback of a tick while \<open>script.py\<close> runs under the command line
  \<open>python flamegraph.py script.py\<close>: the module level of \<open>flamegraph.py\<close> calls \<open>main()\<close>
  in line 145, \<open>main\<close> runs the script with \<open>exec\<close> in line 138.
\<close>

definition frame_cli :: frame where
  "frame_cli =
     [(''/opt/flamegraph/flamegraph.py'', 145, ''<module>'', Some ''main()''),
      (''/opt/flamegraph/flamegraph.py'', 138, ''main'',
         Some ''exec(script_compiled, script_globals, script_globals)''),
      (''/home/u/script.py'', 9, ''<module>'', Some ''work()'')]"

definition frame_foo :: frame where
  "frame_foo = [(''/p/run.py'', 3, ''<module>'', None), (''/p/f.py'', 1, ''foo'', None)]"

definition frame_bar :: frame where
  "frame_bar = [(''/p/run.py'', 3, ''<module>'', None), (''/p/f.py'', 1, ''bar'', None)]"

section \<open>Properties of the encoder\<close>

lemma collapse_loop_keep_changes:
  "collapse_loop fmt l ret fis =
     (case format_each fmt (keep_changes l fis) of Inl e \<Rightarrow> Inl e | Inr ss \<Rightarrow> Inr (ret @ ss))"
proof (induction fis arbitrary: l ret)
  case Nil
  then show ?case by simp
next
  case (Cons fi fis)
  show ?case
  proof (cases "l \<noteq> Some (func fi)")
    case True
    then show ?thesis
      by (cases "fmt fi") (simp_all add: Cons.IH split: sum.splits)
  next
    case False
    then show ?thesis
      by (simp add: Cons.IH)
  qed
qed

lemma keep_changes_index:
  "keep_changes l fis =
     map (\<lambda>i. fis ! i)
       (filter (\<lambda>i. if i = 0 then l \<noteq> Some (func (fis ! 0))
                     else func (fis ! (i - 1)) \<noteq> func (fis ! i)) [0..<length fis])"
proof (induction fis arbitrary: l)
  case Nil
  then show ?case by simp
next
  case (Cons fi fis)
  have upt: "[0..<length (fi # fis)] = 0 # map Suc [0..<length fis]"
    by (simp add: upt_conv_Cons map_Suc_upt del: upt_Suc)
  have tail: "map (\<lambda>i. (fi # fis) ! i)
       (filter (\<lambda>i. if i = 0 then l \<noteq> Some (func ((fi # fis) ! 0))
                     else func ((fi # fis) ! (i - 1)) \<noteq> func ((fi # fis) ! i))
          (map Suc [0..<length fis]))
     = keep_changes (Some (func fi)) fis"
  proof -
    have pred: "(if Suc i = 0 then l \<noteq> Some (func ((fi # fis) ! 0))
                 else func ((fi # fis) ! (Suc i - 1)) \<noteq> func ((fi # fis) ! Suc i))
              = (if i = 0 then Some (func fi) \<noteq> Some (func (fis ! 0))
                 else func (fis ! (i - 1)) \<noteq> func (fis ! i))" for i
      by (cases i) simp_all
    show ?thesis
      unfolding Cons.IH [of "Some (func fi)"] filter_map map_map comp_def pred
      by simp
  qed
  show ?case
    unfolding upt using tail by simp
qed

lemma keep_changes_emitted: "keep_changes None fis = emitted_frames fis"
  unfolding keep_changes_index emitted_frames_def
  by (rule arg_cong [where f = "map _"]) (auto intro!: filter_cong)

lemma encode_frames_Nil: "encode_frames [] fmt c = Inr []"
  by (simp add: encode_frames_def)

lemma extract_frame_info_Cons:
  "extract_frame_info (first # rest) =
     map (\<lambda>(fn, ln, name, text).
            \<lparr>fname = fn, short_fname = re_sub_dirs [] fn, line = ln, func = name\<rparr>) rest"
  by (simp add: extract_frame_info_def)

lemma str_int_1: "str_int 1 = ''1''"
  by code_simp

lemma str_int_5: "str_int 5 = ''5''"
  by code_simp

lemma example_entries:
  assumes "map (\<lambda>fi. (func fi, short_fname fi, line fi)) fis =
             [(''mod'', ''f.py'', 1), (''foo'', ''f.py'', 5), (''foo'', ''f.py'', 5)]"
  shows "encode_frames fis default_format_entry True = Inr ''mod@f.py:1;foo@f.py:5'' \<and>
         encode_frames fis default_format_entry False = Inr ''mod@f.py:1;foo@f.py:5;foo@f.py:5''"
proof -
  from assms obtain a b c where fis: "fis = [a, b, c]"
    and a: "func a = ''mod''" "short_fname a = ''f.py''" "line a = 1"
    and b: "func b = ''foo''" "short_fname b = ''f.py''" "line b = 5"
    and c: "func c = ''foo''" "short_fname c = ''f.py''" "line c = 5"
    by (auto simp: map_eq_Cons_conv)
  show ?thesis
    unfolding fis encode_frames_def
    by (simp add: default_format_entry_def a b c str_int_1 str_int_5)
qed

text \<open>
  C1. The encoding is a function of the snapshot, the formatting function and the
  collapse flag: two frames with the same snapshot get the same entry from
  \<open>create_flamegraph_entry\<close>. For every frame whose snapshot has the three frames
  \<open>mod\<close> at \<open>f.py:1\<close>, \<open>foo\<close> at \<open>f.py:5\<close> and \<open>foo\<close> at \<open>f.py:5\<close>, whatever the full paths
  are, \<open>create_flamegraph_entry\<close> with the default format returns
  \<open>mod@f.py:1;foo@f.py:5\<close> with collapsing and \<open>mod@f.py:1;foo@f.py:5;foo@f.py:5\<close>
  without; so does the encoding of the snapshot \<open>(main, f.py, 1, mod)\<close>,
  \<open>(g, f.py, 5, foo)\<close>, \<open>(g, f.py, 5, foo)\<close> itself.
\<close>

theorem encoding_deterministic:
  "(extract_frame_info frame = extract_frame_info frame' \<longrightarrow>
      create_flamegraph_entry frame fmt c = create_flamegraph_entry frame' fmt c) \<and>
   (map (\<lambda>fi. (func fi, short_fname fi, line fi)) (extract_frame_info frame) =
      [(''mod'', ''f.py'', 1), (''foo'', ''f.py'', 5), (''foo'', ''f.py'', 5)] \<longrightarrow>
      create_flamegraph_entry frame default_format_entry True =
        Inr ''mod@f.py:1;foo@f.py:5'' \<and>
      create_flamegraph_entry frame default_format_entry False =
        Inr ''mod@f.py:1;foo@f.py:5;foo@f.py:5'') \<and>
   encode_frames
     [\<lparr>fname = ''main'', short_fname = ''f.py'', line = 1, func = ''mod''\<rparr>,
      \<lparr>fname = ''g'', short_fname = ''f.py'', line = 5, func = ''foo''\<rparr>,
      \<lparr>fname = ''g'', short_fname = ''f.py'', line = 5, func = ''foo''\<rparr>]
     default_format_entry True = Inr ''mod@f.py:1;foo@f.py:5'' \<and>
   encode_frames
     [\<lparr>fname = ''main'', short_fname = ''f.py'', line = 1, func = ''mod''\<rparr>,
      \<lparr>fname = ''g'', short_fname = ''f.py'', line = 5, func = ''foo''\<rparr>,
      \<lparr>fname = ''g'', short_fname = ''f.py'', line = 5, func = ''foo''\<rparr>]
     default_format_entry False = Inr ''mod@f.py:1;foo@f.py:5;foo@f.py:5''"
proof -
  have same: "extract_frame_info frame = extract_frame_info frame' \<longrightarrow>
      create_flamegraph_entry frame fmt c = create_flamegraph_entry frame' fmt c"
    by (simp add: create_flamegraph_entry_def)
  have vals: "map (\<lambda>fi. (func fi, short_fname fi, line fi)) (extract_frame_info frame) =
      [(''mod'', ''f.py'', 1), (''foo'', ''f.py'', 5), (''foo'', ''f.py'', 5)] \<longrightarrow>
      create_flamegraph_entry frame default_format_entry True =
        Inr ''mod@f.py:1;foo@f.py:5'' \<and>
      create_flamegraph_entry frame default_format_entry False =
        Inr ''mod@f.py:1;foo@f.py:5;foo@f.py:5''"
    unfolding create_flamegraph_entry_def by (intro impI) (rule example_entries)
  have on: "encode_frames
     [\<lparr>fname = ''main'', short_fname = ''f.py'', line = 1, func = ''mod''\<rparr>,
      \<lparr>fname = ''g'', short_fname = ''f.py'', line = 5, func = ''foo''\<rparr>,
      \<lparr>fname = ''g'', short_fname = ''f.py'', line = 5, func = ''foo''\<rparr>]
     default_format_entry True = Inr ''mod@f.py:1;foo@f.py:5''"
    by code_simp
  have off: "encode_frames
     [\<lparr>fname = ''main'', short_fname = ''f.py'', line = 1, func = ''mod''\<rparr>,
      \<lparr>fname = ''g'', short_fname = ''f.py'', line = 5, func = ''foo''\<rparr>,
      \<lparr>fname = ''g'', short_fname = ''f.py'', line = 5, func = ''foo''\<rparr>]
     default_format_entry False = Inr ''mod@f.py:1;foo@f.py:5;foo@f.py:5''"
    by code_simp
  show ?thesis
    by (intro conjI) (rule same vals on off)+
qed

text \<open>
  At a traceback with this snapshot: both entries, and the same entry for a second
  traceback that differs in the dropped first entry and in the source text.
\<close>

theorem encoding_deterministic_witness:
  "map (\<lambda>fi. (func fi, short_fname fi, line fi)) (extract_frame_info frame_mod_foo) =
     [(''mod'', ''f.py'', 1), (''foo'', ''f.py'', 5), (''foo'', ''f.py'', 5)] \<and>
   create_flamegraph_entry frame_mod_foo default_format_entry True =
     Inr ''mod@f.py:1;foo@f.py:5'' \<and>
   create_flamegraph_entry frame_mod_foo default_format_entry False =
     Inr ''mod@f.py:1;foo@f.py:5;foo@f.py:5'' \<and>
   extract_frame_info frame_mod_foo = extract_frame_info frame_mod_foo' \<and>
   create_flamegraph_entry frame_mod_foo default_format_entry True =
     create_flamegraph_entry frame_mod_foo' default_format_entry True"
proof -
  have h: "map (\<lambda>fi. (func fi, short_fname fi, line fi)) (extract_frame_info frame_mod_foo) =
     [(''mod'', ''f.py'', 1), (''foo'', ''f.py'', 5), (''foo'', ''f.py'', 5)]"
    by code_simp
  have e: "extract_frame_info frame_mod_foo = extract_frame_info frame_mod_foo'"
    by (simp add: extract_frame_info_def frame_mod_foo_def frame_mod_foo'_def)
  note t = encoding_deterministic [of frame_mod_foo frame_mod_foo' default_format_entry True]
  note v = mp [OF conjunct1 [OF conjunct2 [OF t]] h]
  show ?thesis
    by (intro conjI)
      (rule h conjunct1 [OF v] conjunct2 [OF v] e mp [OF conjunct1 [OF t] e])+
qed

text \<open>
  C2. With collapsing on, the entry is built from exactly the frames of
  \<open>emitted_frames\<close>: the first frame, and every later frame whose routine name differs
  from that of the frame immediately before it. Only a frame that directly follows a frame
  of the same name is folded away; a later frame of a name seen earlier is emitted again.
  The formatted records are joined in order, and the first formatting error is the result.
\<close>

theorem collapse_emits_on_name_change:
  "create_flamegraph_entry frame fmt True =
     (case format_each fmt (emitted_frames (extract_frame_info frame)) of
        Inl e \<Rightarrow> Inl e
      | Inr ss \<Rightarrow> Inr (join '';'' ss))"
  by (simp add: create_flamegraph_entry_def encode_frames_def collapse_loop_keep_changes
      keep_changes_emitted split: sum.splits)

text \<open>
  At the stack \<open>a, a, b, a\<close>: the second \<open>a\<close> is folded, the last one is emitted.
\<close>

theorem collapse_emits_on_name_change_witness:
  "emitted_frames (extract_frame_info
     [(''/p/run.py'', 3, ''<module>'', None), (''/p/f.py'', 1, ''a'', None),
      (''/p/f.py'', 2, ''a'', None), (''/p/f.py'', 7, ''b'', None),
      (''/p/f.py'', 3, ''a'', None)]) =
     [\<lparr>fname = ''/p/f.py'', short_fname = ''f.py'', line = 1, func = ''a''\<rparr>,
      \<lparr>fname = ''/p/f.py'', short_fname = ''f.py'', line = 7, func = ''b''\<rparr>,
      \<lparr>fname = ''/p/f.py'', short_fname = ''f.py'', line = 3, func = ''a''\<rparr>] \<and>
   create_flamegraph_entry
     [(''/p/run.py'', 3, ''<module>'', None), (''/p/f.py'', 1, ''a'', None),
      (''/p/f.py'', 2, ''a'', None), (''/p/f.py'', 7, ''b'', None),
      (''/p/f.py'', 3, ''a'', None)] default_format_entry True =
     Inr ''a@f.py:1;b@f.py:7;a@f.py:3''"
proof -
  have e: "emitted_frames (extract_frame_info
     [(''/p/run.py'', 3, ''<module>'', None), (''/p/f.py'', 1, ''a'', None),
      (''/p/f.py'', 2, ''a'', None), (''/p/f.py'', 7, ''b'', None),
      (''/p/f.py'', 3, ''a'', None)]) =
     [\<lparr>fname = ''/p/f.py'', short_fname = ''f.py'', line = 1, func = ''a''\<rparr>,
      \<lparr>fname = ''/p/f.py'', short_fname = ''f.py'', line = 7, func = ''b''\<rparr>,
      \<lparr>fname = ''/p/f.py'', short_fname = ''f.py'', line = 3, func = ''a''\<rparr>]"
    by code_simp
  have f: "(case format_each default_format_entry
     [\<lparr>fname = ''/p/f.py'', short_fname = ''f.py'', line = 1, func = ''a''\<rparr>,
      \<lparr>fname = ''/p/f.py'', short_fname = ''f.py'', line = 7, func = ''b''\<rparr>,
      \<lparr>fname = ''/p/f.py'', short_fname = ''f.py'', line = 3, func = ''a''\<rparr>] of
        Inl e \<Rightarrow> Inl e
      | Inr ss \<Rightarrow> Inr (join '';'' ss)) = Inr ''a@f.py:1;b@f.py:7;a@f.py:3''"
    by code_simp
  show ?thesis
    using collapse_emits_on_name_change
      [of "[(''/p/run.py'', 3, ''<module>'', None), (''/p/f.py'', 1, ''a'', None),
      (''/p/f.py'', 2, ''a'', None), (''/p/f.py'', 7, ''b'', None),
      (''/p/f.py'', 3, ''a'', None)]" default_format_entry]
    unfolding e f by (simp only: simp_thms)
qed

text \<open>
  C8. An empty snapshot is encoded as the empty string, with and without collapsing and
  whatever the formatting function is; a traceback of at most one entry has an empty
  snapshot.
\<close>

theorem empty_snapshot_encodes_empty:
  "encode_frames [] fmt c = Inr [] \<and>
   (length frame \<le> 1 \<longrightarrow>
      extract_frame_info frame = [] \<and> create_flamegraph_entry frame fmt c = Inr [])"
  by (simp add: create_flamegraph_entry_def extract_frame_info_def encode_frames_def)

text \<open>
  At a traceback of one entry and at the empty one, also with a formatting function that
  would raise on every frame.
\<close>

theorem empty_snapshot_encodes_empty_witness:
  "length [(''/p/run.py'', 3::int, ''<module>'', None :: string option)] \<le> 1 \<and>
   create_flamegraph_entry [(''/p/run.py'', 3, ''<module>'', None)]
     (\<lambda>fi. Inl (KeyError ''fn'')) True = Inr [] \<and>
   create_flamegraph_entry [(''/p/run.py'', 3, ''<module>'', None)]
     (\<lambda>fi. Inl (KeyError ''fn'')) False = Inr [] \<and>
   create_flamegraph_entry [] default_format_entry True = Inr [] \<and>
   create_flamegraph_entry [] default_format_entry False = Inr []"
  using
    empty_snapshot_encodes_empty [of "\<lambda>fi. Inl (KeyError ''fn'')" True "[(''/p/run.py'', 3, ''<module>'', None)]"]
    empty_snapshot_encodes_empty [of "\<lambda>fi. Inl (KeyError ''fn'')" False "[(''/p/run.py'', 3, ''<module>'', None)]"]
    empty_snapshot_encodes_empty [of default_format_entry True "[]"]
    empty_snapshot_encodes_empty [of default_format_entry False "[]"]
  by simp

text \<open>
  C9, as stated, fails: the snapshot does not exclude the profiler's own activation
  frames. On the command-line path the frame of \<open>main\<close> in \<open>flamegraph.py\<close> is the second
  entry of the traceback, stays in the snapshot and is part of the entry.
\<close>

theorem drops_only_first_counterexample:
  "create_flamegraph_entry frame_cli default_format_entry False =
     Inr ''main@flamegraph.py:138;<module>@script.py:9'' \<and>
   extract_frame_info frame_cli ! 0 =
     \<lparr>fname = ''/opt/flamegraph/flamegraph.py'', short_fname = ''flamegraph.py'',
      line = 138, func = ''main''\<rparr>"
  by code_simp

text \<open>
  C9, amended. Frame extraction drops exactly the first (outermost) entry of the
  traceback, whatever activation it belongs to, and keeps every later entry in order: the
  snapshot is one shorter, its \<open>i\<close>-th frame is made from entry \<open>i + 1\<close>, and the entry
  string does not depend on the first entry of the traceback.
\<close>

theorem extract_drops_first_frame:
  "length (extract_frame_info frame) = length frame - 1 \<and>
   (\<forall>i. Suc i < length frame \<longrightarrow>
      (case frame ! Suc i of
         (fn, ln, name, text) \<Rightarrow>
           extract_frame_info frame ! i =
             \<lparr>fname = fn, short_fname = re_sub_dirs [] fn, line = ln, func = name\<rparr>)) \<and>
   create_flamegraph_entry (first # rest) fmt c =
     create_flamegraph_entry (first' # rest) fmt c"
proof -
  have len: "length (extract_frame_info frame) = length frame - 1"
    by (simp add: extract_frame_info_def)
  have nth: "\<forall>i. Suc i < length frame \<longrightarrow>
      (case frame ! Suc i of
         (fn, ln, name, text) \<Rightarrow>
           extract_frame_info frame ! i =
             \<lparr>fname = fn, short_fname = re_sub_dirs [] fn, line = ln, func = name\<rparr>)"
    by (auto simp: extract_frame_info_def split: prod.splits)
  have indep: "create_flamegraph_entry (first # rest) fmt c =
     create_flamegraph_entry (first' # rest) fmt c"
    by (simp add: create_flamegraph_entry_def extract_frame_info_Cons)
  from len nth indep show ?thesis by blast
qed

text \<open>
  At a traceback of three entries: two frames are left, the first of them made from the
  second entry, and replacing the first entry changes nothing.
\<close>

theorem extract_drops_first_frame_witness:
  "length (extract_frame_info
     [(''/lib/flamegraph.py'', 145, ''<module>'', None), (''/p/f.py'', 1, ''mod'', None),
      (''/p/f.py'', 5, ''foo'', None)]) = 2 \<and>
   extract_frame_info
     [(''/lib/flamegraph.py'', 145, ''<module>'', None), (''/p/f.py'', 1, ''mod'', None),
      (''/p/f.py'', 5, ''foo'', None)] ! 0 =
     \<lparr>fname = ''/p/f.py'', short_fname = ''f.py'', line = 1, func = ''mod''\<rparr> \<and>
   create_flamegraph_entry
     [(''/lib/flamegraph.py'', 145, ''<module>'', None), (''/p/f.py'', 1, ''mod'', None),
      (''/p/f.py'', 5, ''foo'', None)] default_format_entry False =
   create_flamegraph_entry
     [(''/elsewhere.py'', 9, ''other'', None), (''/p/f.py'', 1, ''mod'', None),
      (''/p/f.py'', 5, ''foo'', None)] default_format_entry False"
proof -
  have short: "re_sub_dirs [] ''/p/f.py'' = ''f.py''"
    by code_simp
  note t = extract_drops_first_frame
      [of "[(''/lib/flamegraph.py'', 145, ''<module>'', None), (''/p/f.py'', 1, ''mod'', None),
        (''/p/f.py'', 5, ''foo'', None)]"
        "(''/lib/flamegraph.py'', 145, ''<module>'', None)"
        "[(''/p/f.py'', 1, ''mod'', None), (''/p/f.py'', 5, ''foo'', None)]"
        default_format_entry False "(''/elsewhere.py'', 9, ''other'', None)"]
  have len: "length (extract_frame_info
     [(''/lib/flamegraph.py'', 145, ''<module>'', None), (''/p/f.py'', 1, ''mod'', None),
      (''/p/f.py'', 5, ''foo'', None)]) = 2"
    using conjunct1 [OF t] by simp
  have nth: "extract_frame_info
     [(''/lib/flamegraph.py'', 145, ''<module>'', None), (''/p/f.py'', 1, ''mod'', None),
      (''/p/f.py'', 5, ''foo'', None)] ! 0 =
     \<lparr>fname = ''/p/f.py'', short_fname = ''f.py'', line = 1, func = ''mod''\<rparr>"
    using spec [OF conjunct1 [OF conjunct2 [OF t]], of 0]
    by (simp add: short del: re_sub_dirs.simps)
  from len nth conjunct2 [OF conjunct2 [OF t]] show ?thesis
    by (simp only: simp_thms)
qed

section \<open>Properties of the counts\<close>

lemma stats_get_incr:
  "stats_get (stats_incr entry st) key = stats_get st key + (if key = entry then 1 else 0)"
  by (simp add: stats_get_def stats_incr_def update_conv')

lemma stats_get_Nil: "stats_get [] key = 0"
  by (simp add: stats_get_def)

lemma keys_stats_incr: "fst ` set (stats_incr entry st) = insert entry (fst ` set st)"
  by (simp add: stats_incr_def dom_update)

lemma distinct_stats_incr:
  "distinct (map fst st) \<Longrightarrow> distinct (map fst (stats_incr entry st))"
  by (simp add: stats_incr_def distinct_update)

lemma sum_update_first:
  "sum_list (map snd (AList.update k (stats_get st k + d) st)) = sum_list (map snd st) + d"
proof (induction st)
  case Nil
  then show ?case by (simp add: stats_get_def)
next
  case (Cons p ps)
  show ?case
  proof (cases "fst p = k")
    case True
    then show ?thesis by (cases p) (simp add: stats_get_def)
  next
    case False
    then have "stats_get (p # ps) k = stats_get ps k"
      by (cases p) (simp add: stats_get_def)
    with False Cons.IH show ?thesis by simp
  qed
qed

lemma sum_stats_incr: "sum_list (map snd (stats_incr entry st)) = sum_list (map snd st) + 1"
  unfolding stats_incr_def by (rule sum_update_first)

lemma fold_incr_get:
  "stats_get (fold stats_incr es st) key = stats_get st key + int (count_list es key)"
  by (induction es arbitrary: st) (auto simp: stats_get_incr)

lemma fold_incr_keys: "fst ` set (fold stats_incr es st) = set es \<union> fst ` set st"
  by (induction es arbitrary: st) (auto simp: keys_stats_incr)

lemma fold_incr_distinct:
  "distinct (map fst st) \<Longrightarrow> distinct (map fst (fold stats_incr es st))"
  by (induction es arbitrary: st) (auto simp: distinct_stats_incr)

lemma fold_incr_sum:
  "sum_list (map snd (fold stats_incr es st)) = sum_list (map snd st) + int (length es)"
  by (induction es arbitrary: st) (auto simp: sum_stats_incr)

lemma fold_incr_length: "length (fold stats_incr es []) = card (set es)"
proof -
  have "distinct (map fst (fold stats_incr es []))"
    by (rule fold_incr_distinct) simp
  then have "card (set (map fst (fold stats_incr es []))) = length (map fst (fold stats_incr es []))"
    by (rule distinct_card)
  then show ?thesis
    by (simp add: fold_incr_keys)
qed

lemma on_itimer_stats:
  "stats (fst (on_itimer self frame)) =
     (case accepted_entry self frame of None \<Rightarrow> stats self
      | Some entry \<Rightarrow> stats_incr entry (stats self))"
  by (simp add: on_itimer_def accepted_entry_def split: sum.splits)

lemma on_itimer_fields:
  "fd (fst (on_itimer self frame)) = fd self"
  "written (fst (on_itimer self frame)) = written self"
  "interval (fst (on_itimer self frame)) = interval self"
  "format_entry (fst (on_itimer self frame)) = format_entry self"
  "collapse_recursion (fst (on_itimer self frame)) = collapse_recursion self"
  "filter_re (fst (on_itimer self frame)) = filter_re self"
  by (simp_all add: on_itimer_def split: sum.splits)

lemma accepted_entry_cong:
  "format_entry p = format_entry q \<Longrightarrow> collapse_recursion p = collapse_recursion q \<Longrightarrow>
   filter_re p = filter_re q \<Longrightarrow> accepted_entry p = accepted_entry q"
  by (rule ext) (simp add: accepted_entry_def split: sum.splits)

lemma ticks_stats:
  "stats (ticks self frames) = fold stats_incr (accepted_entries self frames) (stats self)"
proof (induction frames arbitrary: self)
  case Nil
  then show ?case by (simp add: accepted_entries_def)
next
  case (Cons frame frames)
  have same: "accepted_entry (fst (on_itimer self frame)) = accepted_entry self"
    by (rule accepted_entry_cong) (simp_all add: on_itimer_fields)
  show ?case
    by (cases "accepted_entry self frame")
      (simp_all add: Cons.IH accepted_entries_def same on_itimer_stats)
qed

text \<open>
  C3. The counts after a run of the handler are the counts before it, incremented once
  for each accepted entry, in order. When a profiler's counts are the result of the
  increments for a sequence \<open>es\<close> of entries on an empty dictionary, \<open>num_frames()\<close> is the
  length of \<open>es\<close>, \<open>num_frames(unique=True)\<close> is the number of distinct entries of \<open>es\<close>,
  the keys are the entries of \<open>es\<close>, and the count stored for each key is the number of
  its occurrences in \<open>es\<close>.
\<close>

theorem aggregation_counts:
  "stats (ticks self frames) = fold stats_incr (accepted_entries self frames) (stats self) \<and>
   (stats self' = fold stats_incr es [] \<longrightarrow>
      num_frames self' False = int (length es) \<and>
      num_frames self' True = int (card (set es)) \<and>
      fst ` set (stats self') = set es \<and>
      (\<forall>key. stats_get (stats self') key = int (count_list es key)) \<and>
      (\<forall>key \<in> set es. map_of (stats self') key = Some (int (count_list es key))))"
proof -
  have run: "stats (ticks self frames) = fold stats_incr (accepted_entries self frames) (stats self)"
    by (rule ticks_stats)
  have agg: "num_frames self' False = int (length es) \<and>
      num_frames self' True = int (card (set es)) \<and>
      fst ` set (stats self') = set es \<and>
      (\<forall>key. stats_get (stats self') key = int (count_list es key)) \<and>
      (\<forall>key \<in> set es. map_of (stats self') key = Some (int (count_list es key)))"
    if st: "stats self' = fold stats_incr es []"
  proof -
    have total: "num_frames self' False = int (length es)"
      by (simp add: num_frames_def st fold_incr_sum)
    have unique: "num_frames self' True = int (card (set es))"
      by (simp add: num_frames_def st fold_incr_length)
    have keys: "fst ` set (stats self') = set es"
      by (simp add: st fold_incr_keys)
    have get: "stats_get (stats self') key = int (count_list es key)" for key
      by (simp add: st fold_incr_get stats_get_Nil)
    have stored: "map_of (stats self') key = Some (int (count_list es key))"
      if "key \<in> set es" for key
    proof -
      from that keys have "key \<in> fst ` set (stats self')" by simp
      then obtain v where v: "map_of (stats self') key = Some v"
        by (metis domD dom_map_of_conv_image_fst)
      with get [of key] show ?thesis by (simp add: stats_get_def)
    qed
    from total unique keys get stored show ?thesis by blast
  qed
  from run agg show ?thesis by blast
qed

text \<open>
  Three ticks on a new profiler, two of them at the same stack: three samples, two keys.
\<close>

theorem aggregation_counts_witness:
  "stats (ticks example_profiler [frame_a, frame_ab, frame_a]) =
     [(''a@f.py:1'', 2), (''a@f.py:1;b@f.py:7'', 1)] \<and>
   num_frames (ticks example_profiler [frame_a, frame_ab, frame_a]) False = 3 \<and>
   num_frames (ticks example_profiler [frame_a, frame_ab, frame_a]) True = 2 \<and>
   stats_get (stats (ticks example_profiler [frame_a, frame_ab, frame_a])) ''a@f.py:1'' = 2 \<and>
   map_of (stats (ticks example_profiler [frame_a, frame_ab, frame_a])) ''a@f.py:1;b@f.py:7'' =
     Some 1"
proof -
  let ?es = "[''a@f.py:1'', ''a@f.py:1;b@f.py:7'', ''a@f.py:1'']"
  let ?p = "ticks example_profiler [frame_a, frame_ab, frame_a]"
  have acc: "accepted_entries example_profiler [frame_a, frame_ab, frame_a] = ?es"
    by code_simp
  have empty: "stats example_profiler = []"
    by (simp add: example_profiler_def)
  have val: "fold stats_incr ?es [] = [(''a@f.py:1'', 2), (''a@f.py:1;b@f.py:7'', 1)]"
    by code_simp
  note t = aggregation_counts [of example_profiler "[frame_a, frame_ab, frame_a]" ?p ?es]
  from conjunct1 [OF t] have st: "stats ?p = fold stats_incr ?es []"
    by (simp only: acc empty)
  note u = mp [OF conjunct2 [OF t] st]
  have card: "card (set ?es) = 2"
    by code_simp
  from u have total: "num_frames ?p False = 3"
    by simp
  from u card have unique: "num_frames ?p True = 2"
    by simp
  from u have get: "stats_get (stats ?p) ''a@f.py:1'' = 2"
    by simp
  from u have stored: "map_of (stats ?p) ''a@f.py:1;b@f.py:7'' = Some 1"
    by simp
  from st val total unique get stored show ?thesis
    by (simp only: simp_thms)
qed

section \<open>Properties of the report\<close>

lemma write_loop_open:
  "Close \<notin> set f \<Longrightarrow>
   write_loop f st keys = (f @ map (\<lambda>key. Write (report_line key (stats_get st key))) keys, None)"
  by (induction keys arbitrary: f) (simp_all add: fd_write_def)

lemma write_loop_closed:
  "Close \<in> set f \<Longrightarrow>
   write_loop f st keys =
     (f, if keys = [] then None else Some (ValueError ''I/O operation on closed file''))"
  by (cases keys) (simp_all add: fd_write_def)

lemma write_results_written: "written self \<Longrightarrow> write_results self = (self, None)"
  by (simp add: write_results_def)

lemma written_write_results: "written (fst (write_results self))"
  by (simp add: write_results_def split: prod.splits option.splits)

lemma write_results_twice:
  "write_results (fst (write_results self)) = (fst (write_results self), None)"
  by (rule write_results_written) (rule written_write_results)

lemma write_results_fields:
  "interval (fst (write_results self)) = interval self"
  "format_entry (fst (write_results self)) = format_entry self"
  "collapse_recursion (fst (write_results self)) = collapse_recursion self"
  "filter_re (fst (write_results self)) = filter_re self"
  "stats (fst (write_results self)) = stats self"
  by (simp_all add: write_results_def split: prod.splits option.splits)

lemma write_results_open:
  "\<not> written self \<Longrightarrow> Close \<notin> set (fd self) \<Longrightarrow>
   write_results self =
     (self\<lparr>written := True, fd := fd self @ map Write (report (stats self)) @ [Close]\<rparr>, None)"
  by (simp add: write_results_def write_loop_open report_def fd_close_def comp_def)

lemma sort_keys_Nil: "sort (map fst st) = [] \<longleftrightarrow> st = []"
  by (metis length_sort length_map length_0_conv)

lemma write_results_closed:
  "\<not> written self \<Longrightarrow> Close \<in> set (fd self) \<Longrightarrow>
   write_results self =
     (self\<lparr>written := True, fd := (if stats self = [] then fd_close (fd self) else fd self)\<rparr>,
      if stats self = [] then None else Some (ValueError ''I/O operation on closed file''))"
  by (simp add: write_results_def write_loop_closed sort_keys_Nil)

lemma digit_char_value: "d < 10 \<Longrightarrow> of_char (digit_char d) = 48 + d"
  by simp

lemma decimal_value_snoc: "decimal_value (s @ [c]) = 10 * decimal_value s + (of_char c - 48)"
  by (simp add: decimal_value_def)

lemma str_nat_decimal: "decimal_value (str_nat n) = n"
proof (induction n rule: str_nat.induct)
  case (1 n)
  show ?case
  proof (cases "n < 10")
    case True
    then have "str_nat n = [digit_char n]"
      by (subst str_nat.simps) simp
    with True show ?thesis
      by (simp add: decimal_value_def)
  next
    case False
    then have unfold: "str_nat n = str_nat (n div 10) @ [digit_char (n mod 10)]"
      by (subst str_nat.simps) simp
    have "of_char (digit_char (n mod 10)) = 48 + n mod 10"
      by (rule digit_char_value) simp
    with False "1.IH" show ?thesis
      unfolding unfold decimal_value_snoc by simp
  qed
qed

lemma str_nat_digits: "set (str_nat n) \<subseteq> digit_char ` {0..<10}"
proof (induction n rule: str_nat.induct)
  case (1 n)
  show ?case
  proof (cases "n < 10")
    case True
    then have "str_nat n = [digit_char n]"
      by (subst str_nat.simps) simp
    with True show ?thesis
      by (simp del: digit_char.simps)
  next
    case False
    then have unfold: "str_nat n = str_nat (n div 10) @ [digit_char (n mod 10)]"
      by (subst str_nat.simps) simp
    from False "1.IH" show ?thesis
      unfolding unfold by (simp del: digit_char.simps)
  qed
qed

lemma stats_get_stored:
  "key \<in> fst ` set st \<Longrightarrow> map_of st key = Some (stats_get st key)"
proof -
  assume "key \<in> fst ` set st"
  then obtain v where "map_of st key = Some v"
    by (metis domD dom_map_of_conv_image_fst)
  then show ?thesis by (simp add: stats_get_def)
qed

text \<open>
  C4. When the report has not been written and the file is open, \<open>_write_results\<close>
  writes one line for each key of \<open>_stats\<close> and then closes the file; it raises nothing.
  Each line is the key, one space, the count stored for the key in decimal, and a newline.
  The lines are in the order of the sorted keys: non-decreasing, with the same set of keys
  as the dictionary, and, the keys of a dictionary being distinct, one line for each key.
\<close>

theorem report_lines_sorted:
  "(\<not> written self \<and> Close \<notin> set (fd self) \<longrightarrow>
      fd (fst (write_results self)) =
        fd self @
        map (\<lambda>key. Write (key @ '' '' @ str_int (stats_get (stats self) key) @ [newline]))
          (sort (map fst (stats self))) @
        [Close] \<and>
      snd (write_results self) = None) \<and>
   sorted (sort (map fst (stats self))) \<and>
   set (sort (map fst (stats self))) = fst ` set (stats self) \<and>
   (\<forall>key \<in> set (sort (map fst (stats self))).
      map_of (stats self) key = Some (stats_get (stats self) key)) \<and>
   (distinct (map fst (stats self)) \<longrightarrow>
      distinct (sort (map fst (stats self))) \<and>
      length (sort (map fst (stats self))) = card (fst ` set (stats self))) \<and>
   (0 \<le> n \<longrightarrow> decimal_value (str_int n) = nat n)"
proof -
  have out: "\<not> written self \<and> Close \<notin> set (fd self) \<longrightarrow>
      fd (fst (write_results self)) =
        fd self @
        map (\<lambda>key. Write (key @ '' '' @ str_int (stats_get (stats self) key) @ [newline]))
          (sort (map fst (stats self))) @
        [Close] \<and>
      snd (write_results self) = None"
    by (simp add: write_results_open report_def report_line_def comp_def)
  have srt: "sorted (sort (map fst (stats self)))"
    by (rule sorted_sort)
  have keys: "set (sort (map fst (stats self))) = fst ` set (stats self)"
    by simp
  have stored: "\<forall>key \<in> set (sort (map fst (stats self))).
      map_of (stats self) key = Some (stats_get (stats self) key)"
    unfolding keys by (blast intro: stats_get_stored)
  have uniq: "distinct (map fst (stats self)) \<longrightarrow>
      distinct (sort (map fst (stats self))) \<and>
      length (sort (map fst (stats self))) = card (fst ` set (stats self))"
    using distinct_card [of "map fst (stats self)"] by simp
  have dec: "0 \<le> n \<longrightarrow> decimal_value (str_int n) = nat n"
    by (simp add: str_int_def str_nat_decimal del: str_nat.simps)
  show ?thesis
    by (intro conjI) (rule out srt keys stored uniq dec)+
qed

text \<open>
  After three ticks the dictionary holds two stacks, the longer one first; the report has
  the shorter one first.
\<close>

theorem report_lines_sorted_witness:
  "\<not> written (ticks example_profiler [frame_ab, frame_a, frame_ab]) \<and>
   Close \<notin> set (fd (ticks example_profiler [frame_ab, frame_a, frame_ab])) \<and>
   stats (ticks example_profiler [frame_ab, frame_a, frame_ab]) =
     [(''a@f.py:1;b@f.py:7'', 2), (''a@f.py:1'', 1)] \<and>
   fd (fst (write_results (ticks example_profiler [frame_ab, frame_a, frame_ab]))) =
     [Write (''a@f.py:1 1'' @ [newline]), Write (''a@f.py:1;b@f.py:7 2'' @ [newline]), Close]"
proof -
  let ?p = "ticks example_profiler [frame_ab, frame_a, frame_ab]"
  have w: "\<not> written ?p"
    by code_simp
  have c: "Close \<notin> set (fd ?p)"
    by code_simp
  have st: "stats ?p = [(''a@f.py:1;b@f.py:7'', 2), (''a@f.py:1'', 1)]"
    by code_simp
  have val: "fd ?p @
        map (\<lambda>key. Write (key @ '' '' @ str_int (stats_get (stats ?p) key) @ [newline]))
          (sort (map fst (stats ?p))) @
        [Close] =
     [Write (''a@f.py:1 1'' @ [newline]), Write (''a@f.py:1;b@f.py:7 2'' @ [newline]), Close]"
    by code_simp
  from w c have h: "\<not> written ?p \<and> Close \<notin> set (fd ?p)"
    by simp
  note t = conjunct1 [OF mp [OF conjunct1 [OF report_lines_sorted [of ?p 0]] h]]
  from w c st t val show ?thesis
    by (simp only: simp_thms)
qed

section \<open>Properties of stop\<close>

lemma stop_written:
  "written (prof s) \<Longrightarrow> stop s = (\<lparr>itimer_armed = False, prof = prof s\<rparr>, None)"
  by (simp add: stop_def write_results_written)

lemma written_stop: "written (prof (fst (stop s)))"
  by (simp add: stop_def written_write_results split: prod.splits)
     (metis fst_conv written_write_results)

lemma stop_twice: "stop (fst (stop s)) = (fst (stop s), None)"
proof -
  have "stop (fst (stop s)) = (\<lparr>itimer_armed = False, prof = prof (fst (stop s))\<rparr>, None)"
    by (rule stop_written) (rule written_stop)
  moreover have "\<lparr>itimer_armed = False, prof = prof (fst (stop s))\<rparr> = fst (stop s)"
    by (simp add: stop_def split: prod.splits)
  ultimately show ?thesis by simp
qed

lemma run_stops_after_stop: "run (fst (stop s)) (replicate m Stop) = fst (stop s)"
  by (induction m) (simp_all add: stop_twice)

lemma run_stops: "0 < n \<Longrightarrow> run s (replicate n Stop) = fst (stop s)"
  by (cases n) (simp_all add: run_stops_after_stop)

lemma stop_open:
  "\<not> written (prof s) \<Longrightarrow> Close \<notin> set (fd (prof s)) \<Longrightarrow>
   fd (prof (fst (stop s))) = fd (prof s) @ map Write (report (stats (prof s))) @ [Close]"
  by (simp add: stop_def write_results_open)

lemma count_Close_report:
  "Close \<notin> set f \<Longrightarrow> count_list (f @ map Write ls @ [Close]) Close = 1"
proof -
  assume "Close \<notin> set f"
  moreover have "Close \<notin> set (map Write ls)"
    by auto
  ultimately show ?thesis
    by (simp del: set_map)
qed

text \<open>
  C5. \<open>stop\<close> is idempotent: from every state, a second \<open>stop\<close> changes nothing and
  raises nothing, so any number of calls of \<open>stop\<close> in a row, one at least, leaves the
  state that one call leaves, with the timer disarmed. For a profiler whose report has not
  been written and whose file is open, the file after these calls holds the lines of the
  report once, followed by the one \<open>close\<close>: the same as after a single \<open>stop\<close>.
\<close>

theorem stop_idempotent:
  "fst (stop (fst (stop s))) = fst (stop s) \<and>
   snd (stop (fst (stop s))) = None \<and>
   \<not> itimer_armed (fst (stop s)) \<and>
   (0 < n \<longrightarrow> run s (replicate n Stop) = fst (stop s)) \<and>
   (\<not> written (prof s) \<and> Close \<notin> set (fd (prof s)) \<and> 0 < n \<longrightarrow>
      fd (prof (run s (replicate n Stop))) =
        fd (prof s) @ map Write (report (stats (prof s))) @ [Close] \<and>
      count_list (fd (prof (run s (replicate n Stop)))) Close = 1 \<and>
      fd (prof (run s (replicate n Stop))) = fd (prof (fst (stop s))))"
proof -
  have twice: "fst (stop (fst (stop s))) = fst (stop s)"
    by (simp add: stop_twice)
  have quiet: "snd (stop (fst (stop s))) = None"
    by (simp add: stop_twice)
  have timer: "\<not> itimer_armed (fst (stop s))"
    by (simp add: stop_def split: prod.splits)
  have many: "0 < n \<longrightarrow> run s (replicate n Stop) = fst (stop s)"
    by (simp add: run_stops)
  have once: "\<not> written (prof s) \<and> Close \<notin> set (fd (prof s)) \<and> 0 < n \<longrightarrow>
      fd (prof (run s (replicate n Stop))) =
        fd (prof s) @ map Write (report (stats (prof s))) @ [Close] \<and>
      count_list (fd (prof (run s (replicate n Stop)))) Close = 1 \<and>
      fd (prof (run s (replicate n Stop))) = fd (prof (fst (stop s)))"
    by (simp add: run_stops stop_open count_Close_report del: count_list_append)
  show ?thesis
    by (intro conjI) (rule twice quiet timer many once)+
qed

text \<open>Two calls of \<open>stop\<close> after three ticks: one report of two lines, one \<open>close\<close>.\<close>

theorem stop_idempotent_witness:
  "fd (prof (run \<lparr>itimer_armed = True,
                   prof = ticks example_profiler [frame_ab, frame_a, frame_ab]\<rparr>
              (replicate 2 Stop))) =
     [Write (''a@f.py:1 1'' @ [newline]), Write (''a@f.py:1;b@f.py:7 2'' @ [newline]), Close] \<and>
   count_list
     (fd (prof (run \<lparr>itimer_armed = True,
                      prof = ticks example_profiler [frame_ab, frame_a, frame_ab]\<rparr>
                 (replicate 2 Stop)))) Close = 1 \<and>
   fd (prof (run \<lparr>itimer_armed = True,
                   prof = ticks example_profiler [frame_ab, frame_a, frame_ab]\<rparr>
              (replicate 2 Stop))) =
   fd (prof (fst (stop \<lparr>itimer_armed = True,
                         prof = ticks example_profiler [frame_ab, frame_a, frame_ab]\<rparr>)))"
proof -
  let ?s = "\<lparr>itimer_armed = True,
             prof = ticks example_profiler [frame_ab, frame_a, frame_ab]\<rparr>"
  have w: "\<not> written (prof ?s)"
    by code_simp
  have c: "Close \<notin> set (fd (prof ?s))"
    by code_simp
  have val: "fd (prof ?s) @ map Write (report (stats (prof ?s))) @ [Close] =
     [Write (''a@f.py:1 1'' @ [newline]), Write (''a@f.py:1;b@f.py:7 2'' @ [newline]), Close]"
    by code_simp
  from w c have h: "\<not> written (prof ?s) \<and> Close \<notin> set (fd (prof ?s)) \<and> (0::nat) < 2"
    by simp
  note t = stop_idempotent [of ?s 2]
  note u = mp [OF conjunct2 [OF conjunct2 [OF conjunct2 [OF conjunct2 [OF t]]]] h]
  have a: "fd (prof (run ?s (replicate 2 Stop))) =
     [Write (''a@f.py:1 1'' @ [newline]), Write (''a@f.py:1;b@f.py:7 2'' @ [newline]), Close]"
    using conjunct1 [OF u] val by (rule trans)
  show ?thesis
    by (intro conjI) (rule a conjunct1 [OF conjunct2 [OF u]] conjunct2 [OF conjunct2 [OF u]])+
qed

section \<open>Properties of a lifetime\<close>

lemma do_call_written:
  "written (prof s) \<Longrightarrow>
   written (prof (fst (do_call s c))) \<and> fd (prof (fst (do_call s c))) = fd (prof s)"
  by (cases c)
    (simp_all add: stop_written write_results_written on_itimer_fields split: prod.splits,
     (metis fst_conv on_itimer_fields(1) on_itimer_fields(2))+)

lemma run_written:
  "written (prof s) \<Longrightarrow> written (prof (run s cs)) \<and> fd (prof (run s cs)) = fd (prof s)"
proof (induction cs arbitrary: s)
  case Nil
  then show ?case by simp
next
  case (Cons c cs)
  from do_call_written [OF Cons.prems, of c]
  have w: "written (prof (fst (do_call s c)))" and f: "fd (prof (fst (do_call s c))) = fd (prof s)"
    by simp_all
  from Cons.IH [OF w] f show ?case by simp
qed

lemma run_append: "run s (xs @ ys) = run (run s xs) ys"
  by (induction xs arbitrary: s) simp_all

lemma run_ticks: "run s (map Tick frames) = s\<lparr>prof := ticks (prof s) frames\<rparr>"
  by (induction frames arbitrary: s) (simp_all split: prod.splits)

lemma ticks_fields:
  "fd (ticks self frames) = fd self"
  "written (ticks self frames) = written self"
  "filter_re (ticks self frames) = filter_re self"
  by (induction frames arbitrary: self) (simp_all add: on_itimer_fields)

lemma prof_do_call_final:
  "fin = Stop \<or> fin = WriteResults \<Longrightarrow> prof (fst (do_call s fin)) = fst (write_results (prof s))"
  by (auto simp: stop_def split: prod.splits)

lemma run_ticks_final:
  assumes "fin = Stop \<or> fin = WriteResults"
  shows "written (prof (run s (map Tick frames @ fin # cs))) \<and>
         fd (prof (run s (map Tick frames @ fin # cs))) =
           fd (fst (write_results (ticks (prof s) frames)))"
proof -
  let ?s1 = "s\<lparr>prof := ticks (prof s) frames\<rparr>"
  let ?s2 = "fst (do_call ?s1 fin)"
  have split: "run s (map Tick frames @ fin # cs) = run ?s2 cs"
    by (simp add: run_append run_ticks)
  have p2: "prof ?s2 = fst (write_results (ticks (prof s) frames))"
    using prof_do_call_final [OF assms, of ?s1] by simp
  then have w2: "written (prof ?s2)"
    by (simp add: written_write_results)
  from run_written [OF w2, of cs] p2 show ?thesis
    unfolding split by simp
qed

text \<open>
  C10. Once \<open>_written\<close> is set, no sequence of calls clears it or touches the file, and
  a later \<open>stop\<close> or \<open>_write_results\<close> raises nothing. The handler does not look at the
  flag: a tick after finalization whose entry is accepted still increments the count. In
  a lifetime that starts with the report unwritten, the ticks before the first \<open>stop\<close> or
  \<open>_write_results\<close> leave the file alone, and after that call the file is, whatever calls
  follow, what \<open>_write_results\<close> made of it at that moment: for an open file, the report of
  the counts of the ticks before the first finalization, and the \<open>close\<close>.
\<close>

theorem finalized_once:
  "(written (prof s) \<longrightarrow>
      written (prof (run s cs)) \<and> fd (prof (run s cs)) = fd (prof s)) \<and>
   (written (prof s) \<longrightarrow>
      snd (do_call s Stop) = None \<and> snd (do_call s WriteResults) = None) \<and>
   (written self \<and> accepted_entry self frame = Some entry \<longrightarrow>
      written (fst (on_itimer self frame)) \<and>
      stats (fst (on_itimer self frame)) = stats_incr entry (stats self) \<and>
      stats_get (stats (fst (on_itimer self frame))) entry = stats_get (stats self) entry + 1) \<and>
   fd (prof (run s (map Tick frames))) = fd (prof s) \<and>
   (\<not> written (prof s) \<and> (fin = Stop \<or> fin = WriteResults) \<longrightarrow>
      written (prof (run s (map Tick frames @ fin # cs))) \<and>
      fd (prof (run s (map Tick frames @ fin # cs))) =
        fd (fst (write_results (ticks (prof s) frames)))) \<and>
   (\<not> written (prof s) \<and> Close \<notin> set (fd (prof s)) \<and> (fin = Stop \<or> fin = WriteResults) \<longrightarrow>
      fd (prof (run s (map Tick frames @ fin # cs))) =
        fd (prof s) @ map Write (report (stats (ticks (prof s) frames))) @ [Close])"
proof -
  have kept: "written (prof s) \<longrightarrow>
      written (prof (run s cs)) \<and> fd (prof (run s cs)) = fd (prof s)"
    by (simp add: run_written)
  have quiet: "written (prof s) \<longrightarrow>
      snd (do_call s Stop) = None \<and> snd (do_call s WriteResults) = None"
    by (simp add: stop_written write_results_written)
  have tick: "written self \<and> accepted_entry self frame = Some entry \<longrightarrow>
      written (fst (on_itimer self frame)) \<and>
      stats (fst (on_itimer self frame)) = stats_incr entry (stats self) \<and>
      stats_get (stats (fst (on_itimer self frame))) entry = stats_get (stats self) entry + 1"
    by (simp add: on_itimer_fields on_itimer_stats stats_get_incr)
  have none: "fd (prof (run s (map Tick frames))) = fd (prof s)"
    by (simp add: run_ticks ticks_fields)
  have first: "\<not> written (prof s) \<and> (fin = Stop \<or> fin = WriteResults) \<longrightarrow>
      written (prof (run s (map Tick frames @ fin # cs))) \<and>
      fd (prof (run s (map Tick frames @ fin # cs))) =
        fd (fst (write_results (ticks (prof s) frames)))"
    using run_ticks_final [of fin s frames cs] by blast
  have report: "\<not> written (prof s) \<and> Close \<notin> set (fd (prof s)) \<and>
      (fin = Stop \<or> fin = WriteResults) \<longrightarrow>
      fd (prof (run s (map Tick frames @ fin # cs))) =
        fd (prof s) @ map Write (report (stats (ticks (prof s) frames))) @ [Close]"
  proof (intro impI, elim conjE)
    assume w: "\<not> written (prof s)" and c: "Close \<notin> set (fd (prof s))"
      and f: "fin = Stop \<or> fin = WriteResults"
    from w c have "write_results (ticks (prof s) frames) =
      ((ticks (prof s) frames)\<lparr>written := True,
         fd := fd (ticks (prof s) frames) @
               map Write (report (stats (ticks (prof s) frames))) @ [Close]\<rparr>, None)"
      by (intro write_results_open) (simp_all add: ticks_fields)
    with run_ticks_final [OF f, of s frames cs] show
      "fd (prof (run s (map Tick frames @ fin # cs))) =
        fd (prof s) @ map Write (report (stats (ticks (prof s) frames))) @ [Close]"
      by (simp add: ticks_fields)
  qed
  show ?thesis
    by (intro conjI) (rule kept quiet tick none first report)+
qed

text \<open>
  A tick, \<open>stop\<close>, a second tick, \<open>stop\<close> again and \<open>_write_results\<close>: the file holds
  the one line of the first tick, the dictionary also the stack of the second.
\<close>

theorem finalized_once_witness:
  "fd (prof (run \<lparr>itimer_armed = True, prof = example_profiler\<rparr>
               [Tick frame_a, Stop, Tick frame_ab, Stop, WriteResults])) =
     [Write (''a@f.py:1 1'' @ [newline]), Close] \<and>
   stats (prof (run \<lparr>itimer_armed = True, prof = example_profiler\<rparr>
               [Tick frame_a, Stop, Tick frame_ab, Stop, WriteResults])) =
     [(''a@f.py:1'', 1), (''a@f.py:1;b@f.py:7'', 1)]"
proof -
  let ?s = "\<lparr>itimer_armed = True, prof = example_profiler\<rparr>"
  have shape: "[Tick frame_a, Stop, Tick frame_ab, Stop, WriteResults] =
     map Tick [frame_a] @ Stop # [Tick frame_ab, Stop, WriteResults]"
    by simp
  have h: "\<not> written (prof ?s) \<and> Close \<notin> set (fd (prof ?s)) \<and>
     (Stop = Stop \<or> Stop = WriteResults)"
    by (simp add: example_profiler_def)
  have val: "fd (prof ?s) @ map Write (report (stats (ticks (prof ?s) [frame_a]))) @ [Close] =
     [Write (''a@f.py:1 1'' @ [newline]), Close]"
    by code_simp
  note t = finalized_once
    [of ?s "[Tick frame_ab, Stop, WriteResults]" example_profiler frame_a "[]" "[frame_a]" Stop]
  note u = mp [OF conjunct2 [OF conjunct2 [OF conjunct2 [OF conjunct2 [OF conjunct2 [OF t]]]]] h]
  have a: "fd (prof (run ?s [Tick frame_a, Stop, Tick frame_ab, Stop, WriteResults])) =
     [Write (''a@f.py:1 1'' @ [newline]), Close]"
    unfolding shape using u val by (rule trans)
  have b: "stats (prof (run ?s [Tick frame_a, Stop, Tick frame_ab, Stop, WriteResults])) =
     [(''a@f.py:1'', 1), (''a@f.py:1;b@f.py:7'', 1)]"
    by code_simp
  show ?thesis
    by (intro conjI) (rule a b)+
qed

section \<open>Properties of the filter\<close>

lemma starts_with_prefix: "starts_with pat s \<longleftrightarrow> (\<exists>v. s = pat @ v)"
  by (induction pat s rule: starts_with.induct) auto

lemma literal_search_substring: "literal_search pat s \<longleftrightarrow> (\<exists>u v. s = u @ pat @ v)"
proof (induction s)
  case Nil
  show ?case by (cases pat) simp_all
next
  case (Cons c cs)
  show ?case
  proof
    assume "literal_search pat (c # cs)"
    then consider "starts_with pat (c # cs)" | "literal_search pat cs"
      by auto
    then show "\<exists>u v. c # cs = u @ pat @ v"
    proof cases
      case 1
      then obtain v where "c # cs = pat @ v"
        unfolding starts_with_prefix by blast
      then have "c # cs = [] @ pat @ v" by simp
      then show ?thesis by blast
    next
      case 2
      with Cons.IH obtain u v where "cs = u @ pat @ v" by blast
      then have "c # cs = (c # u) @ pat @ v" by simp
      then show ?thesis by blast
    qed
  next
    assume "\<exists>u v. c # cs = u @ pat @ v"
    then obtain u v where uv: "c # cs = u @ pat @ v" by blast
    show "literal_search pat (c # cs)"
    proof (cases u)
      case Nil
      with uv have "starts_with pat (c # cs)"
        unfolding starts_with_prefix by simp
      then show ?thesis by simp
    next
      case (Cons d u')
      with uv have "cs = u' @ pat @ v" by simp
      with Cons.IH have "literal_search pat cs" by blast
      then show ?thesis by simp
    qed
  qed
qed

lemma run_filter: "filter_re (prof (run s cs)) = filter_re (prof s)"
proof (induction cs arbitrary: s)
  case Nil
  show ?case by simp
next
  case (Cons c cs)
  have "filter_re (prof (fst (do_call s c))) = filter_re (prof s)"
    by (cases c) (simp_all add: stop_def on_itimer_fields write_results_fields split: prod.splits,
        (metis fst_conv on_itimer_fields(6) write_results_fields(4))+)
  with Cons.IH [of "fst (do_call s c)"] show ?case by simp
qed

lemma on_itimer_counts:
  "create_flamegraph_entry frame (format_entry self) (collapse_recursion self) = Inr entry \<Longrightarrow>
   stats (fst (on_itimer self frame)) =
     (if accepts (filter_re self) entry then stats_incr entry (stats self) else stats self)"
  by (simp add: on_itimer_def)

text \<open>
  C6. The filter is set by \<open>__init__\<close> (none without a pattern, the compiled pattern
  otherwise) and no method changes it. When an entry is produced, the handler counts it
  if there is no filter, and with a filter exactly when the pattern's search finds a match
  in the entry string as a whole; otherwise the counts stay as they are. With the pattern
  \<open>foo\<close>, whose search is the search for a substring, the entry \<open>bar@f.py:1\<close> is not
  counted and the entry \<open>foo@f.py:1\<close> is.
\<close>

theorem filter_on_whole_entry:
  "filter_re (fst (on_itimer self frame)) = filter_re self \<and>
   filter_re (fst (write_results self)) = filter_re self \<and>
   filter_re (prof (run s cs)) = filter_re (prof s) \<and>
   (\<exists>p. Profiler_init re_compile f i None fmt c = Inr p \<and> filter_re p = None) \<and>
   (re_compile pat = Inr r \<longrightarrow>
      (\<exists>p. Profiler_init re_compile f i (Some pat) fmt c = Inr p \<and> filter_re p = Some r)) \<and>
   (create_flamegraph_entry frame (format_entry self) (collapse_recursion self) = Inr entry \<longrightarrow>
      (filter_re self = None \<longrightarrow>
         stats (fst (on_itimer self frame)) = stats_incr entry (stats self)) \<and>
      (filter_re self = Some r \<longrightarrow>
         stats (fst (on_itimer self frame)) =
           (if r entry then stats_incr entry (stats self) else stats self)) \<and>
      stats_get (stats (fst (on_itimer self frame))) entry =
        stats_get (stats self) entry + (if accepts (filter_re self) entry then 1 else 0)) \<and>
   (filter_re self = Some (literal_search ''foo'') \<and>
    create_flamegraph_entry frame (format_entry self) (collapse_recursion self) =
      Inr ''bar@f.py:1'' \<longrightarrow>
      stats (fst (on_itimer self frame)) = stats self) \<and>
   (filter_re self = Some (literal_search ''foo'') \<and>
    create_flamegraph_entry frame (format_entry self) (collapse_recursion self) =
      Inr ''foo@f.py:1'' \<longrightarrow>
      stats (fst (on_itimer self frame)) = stats_incr ''foo@f.py:1'' (stats self)) \<and>
   (literal_search pat entry \<longleftrightarrow> (\<exists>u v. entry = u @ pat @ v))"
proof -
  have fix1: "filter_re (fst (on_itimer self frame)) = filter_re self"
    by (simp add: on_itimer_fields)
  have fix2: "filter_re (fst (write_results self)) = filter_re self"
    by (simp add: write_results_fields)
  have fix3: "filter_re (prof (run s cs)) = filter_re (prof s)"
    by (rule run_filter)
  have init1: "\<exists>p. Profiler_init re_compile f i None fmt c = Inr p \<and> filter_re p = None"
    by (simp add: Profiler_init_def)
  have init2: "re_compile pat = Inr r \<longrightarrow>
      (\<exists>p. Profiler_init re_compile f i (Some pat) fmt c = Inr p \<and> filter_re p = Some r)"
    by (simp add: Profiler_init_def)
  have count: "create_flamegraph_entry frame (format_entry self) (collapse_recursion self) =
        Inr entry \<longrightarrow>
      (filter_re self = None \<longrightarrow>
         stats (fst (on_itimer self frame)) = stats_incr entry (stats self)) \<and>
      (filter_re self = Some r \<longrightarrow>
         stats (fst (on_itimer self frame)) =
           (if r entry then stats_incr entry (stats self) else stats self)) \<and>
      stats_get (stats (fst (on_itimer self frame))) entry =
        stats_get (stats self) entry + (if accepts (filter_re self) entry then 1 else 0)"
    by (simp add: on_itimer_counts accepts_def stats_get_incr)
  have no: "\<not> literal_search ''foo'' ''bar@f.py:1''"
    by code_simp
  have yes: "literal_search ''foo'' ''foo@f.py:1''"
    by code_simp
  have bar: "filter_re self = Some (literal_search ''foo'') \<and>
    create_flamegraph_entry frame (format_entry self) (collapse_recursion self) =
      Inr ''bar@f.py:1'' \<longrightarrow>
      stats (fst (on_itimer self frame)) = stats self"
    using no by (simp add: on_itimer_counts accepts_def del: literal_search.simps)
  have foo: "filter_re self = Some (literal_search ''foo'') \<and>
    create_flamegraph_entry frame (format_entry self) (collapse_recursion self) =
      Inr ''foo@f.py:1'' \<longrightarrow>
      stats (fst (on_itimer self frame)) = stats_incr ''foo@f.py:1'' (stats self)"
    using yes by (simp add: on_itimer_counts accepts_def del: literal_search.simps)
  have sub: "literal_search pat entry \<longleftrightarrow> (\<exists>u v. entry = u @ pat @ v)"
    by (rule literal_search_substring)
  show ?thesis
    by (intro conjI) (rule fix1 fix2 fix3 init1 init2 count bar foo sub)+
qed

text \<open>
  A profiler made with the pattern \<open>foo\<close>: a tick in \<open>bar\<close> leaves the counts, a tick in
  \<open>foo\<close> is counted.
\<close>

theorem filter_on_whole_entry_witness:
  "Profiler_init re_compile_literal [] () (Some ''foo'') default_format_entry False =
     Inr foo_profiler \<and>
   filter_re foo_profiler = Some (literal_search ''foo'') \<and>
   create_flamegraph_entry frame_bar (format_entry foo_profiler)
     (collapse_recursion foo_profiler) = Inr ''bar@f.py:1'' \<and>
   stats (fst (on_itimer foo_profiler frame_bar)) = stats foo_profiler \<and>
   create_flamegraph_entry frame_foo (format_entry foo_profiler)
     (collapse_recursion foo_profiler) = Inr ''foo@f.py:1'' \<and>
   stats (fst (on_itimer foo_profiler frame_foo)) = [(''foo@f.py:1'', 1)]"
proof -
  have init: "Profiler_init re_compile_literal [] () (Some ''foo'') default_format_entry False =
     Inr foo_profiler"
    by (simp add: Profiler_init_def re_compile_literal_def foo_profiler_def example_profiler_def)
  have flt: "filter_re foo_profiler = Some (literal_search ''foo'')"
    by (simp add: foo_profiler_def)
  have bar: "create_flamegraph_entry frame_bar (format_entry foo_profiler)
     (collapse_recursion foo_profiler) = Inr ''bar@f.py:1''"
    by code_simp
  have foo: "create_flamegraph_entry frame_foo (format_entry foo_profiler)
     (collapse_recursion foo_profiler) = Inr ''foo@f.py:1''"
    by code_simp
  have val: "stats_incr ''foo@f.py:1'' (stats foo_profiler) = [(''foo@f.py:1'', 1)]"
    by code_simp
  note t1 = filter_on_whole_entry [where self = foo_profiler and frame = frame_bar]
  note t2 = filter_on_whole_entry [where self = foo_profiler and frame = frame_foo]
  have out: "stats (fst (on_itimer foo_profiler frame_bar)) = stats foo_profiler"
    using conjunct1 [OF conjunct2 [OF conjunct2 [OF conjunct2 [OF conjunct2
      [OF conjunct2 [OF conjunct2 [OF t1]]]]]]] flt bar
    by (simp only: simp_thms)
  have "stats (fst (on_itimer foo_profiler frame_foo)) = stats_incr ''foo@f.py:1'' (stats foo_profiler)"
    using conjunct1 [OF conjunct2 [OF conjunct2 [OF conjunct2 [OF conjunct2
      [OF conjunct2 [OF conjunct2 [OF conjunct2 [OF t2]]]]]]]] flt foo
    by (simp only: simp_thms)
  then have inn: "stats (fst (on_itimer foo_profiler frame_foo)) = [(''foo@f.py:1'', 1)]"
    using val by (rule trans)
  show ?thesis
    by (intro conjI) (rule init flt bar out foo inn)+
qed

section \<open>Exceptions in the handler\<close>

lemma first_frame_raises:
  "extract_frame_info frame = fi # fis \<Longrightarrow> fmt fi = Inl e \<Longrightarrow>
   create_flamegraph_entry frame fmt c = Inl e"
  by (simp add: create_flamegraph_entry_def encode_frames_def)

text \<open>
  C7, as stated, fails: \<open>on_itimer\<close> has no exception handler, and with a formatting
  function that raises, the exception leaves the handler.
\<close>

theorem on_itimer_raises_counterexample:
  "snd (on_itimer raising_profiler frame_a) = Some (KeyError ''fn'')"
  by code_simp

text \<open>
  C7, amended. \<open>on_itimer\<close> has no exception handling: an exception raised while the
  sample is encoded, as when the formatting function raises on the first frame of the
  snapshot, leaves the handler as it is, and the profiler is then as it was before the
  tick, so the sample is not counted.
\<close>

theorem on_itimer_propagates:
  "(create_flamegraph_entry frame (format_entry self) (collapse_recursion self) = Inl e \<longrightarrow>
      on_itimer self frame = (self, Some e)) \<and>
   (extract_frame_info frame = fi # fis \<and> format_entry self fi = Inl e \<longrightarrow>
      on_itimer self frame = (self, Some e)) \<and>
   (snd (on_itimer self frame) \<noteq> None \<longrightarrow> fst (on_itimer self frame) = self)"
proof -
  have raised: "create_flamegraph_entry frame (format_entry self) (collapse_recursion self) =
      Inl e \<longrightarrow> on_itimer self frame = (self, Some e)"
    by (simp add: on_itimer_def)
  have first: "extract_frame_info frame = fi # fis \<and> format_entry self fi = Inl e \<longrightarrow>
      on_itimer self frame = (self, Some e)"
    by (simp add: on_itimer_def first_frame_raises)
  have unchanged: "snd (on_itimer self frame) \<noteq> None \<longrightarrow> fst (on_itimer self frame) = self"
    by (simp add: on_itimer_def split: sum.splits)
  show ?thesis
    by (intro conjI) (rule raised first unchanged)+
qed

text \<open>
  With the raising format the tick raises the \<open>KeyError\<close> of the formatting function and
  leaves the profiler as it was.
\<close>

theorem on_itimer_propagates_witness:
  "create_flamegraph_entry frame_a (format_entry raising_profiler)
     (collapse_recursion raising_profiler) = Inl (KeyError ''fn'') \<and>
   on_itimer raising_profiler frame_a = (raising_profiler, Some (KeyError ''fn'')) \<and>
   snd (on_itimer raising_profiler frame_a) \<noteq> None \<and>
   fst (on_itimer raising_profiler frame_a) = raising_profiler"
proof -
  have h: "create_flamegraph_entry frame_a (format_entry raising_profiler)
     (collapse_recursion raising_profiler) = Inl (KeyError ''fn'')"
    by code_simp
  have r: "snd (on_itimer raising_profiler frame_a) \<noteq> None"
    by code_simp
  note t = on_itimer_propagates [of frame_a raising_profiler "KeyError ''fn''"]
  show ?thesis
    by (intro conjI)
      (rule h mp [OF conjunct1 [OF t] h] r mp [OF conjunct2 [OF conjunct2 [OF t]] r])+
qed

end
